theory Spec2Isabelle
  imports Complex_Main
begin

section \<open>A shallow embedding of debruijn.py\<close>

text \<open>
  The assembler of \<^verbatim>\<open>src/debruijn/debruijn.py\<close>: k-mer extraction, removal of paths
  from the de Bruijn graph, the selection policy for bubbles and tips, and contig
  reconstruction. Python integers are \<open>int\<close>, strings are \<open>string\<close>, generators are the
  lists of the values they yield, exceptions are values of the type \<open>error\<close>.
\<close>

subsection \<open>Python sequences\<close>

datatype error = StatisticsError | IndexError | ValueError | NameError | NodeNotFound

text \<open>
  A bound of a slice \<^verbatim>\<open>xs[i:j]\<close>: a negative bound counts from the end, and every
  bound is clamped to the range \<open>0 .. len(xs)\<close>.
\<close>

definition slice_bound :: "nat \<Rightarrow> int \<Rightarrow> nat" where
  "slice_bound n i = (if i < 0 then nat (int n + i) else min (nat i) n)"

definition py_slice :: "'a list \<Rightarrow> int \<Rightarrow> int \<Rightarrow> 'a list" where
  "py_slice xs i j =
     (let lo = slice_bound (length xs) i; hi = slice_bound (length xs) j
      in take (hi - lo) (drop lo xs))"

subsection \<open>cut\_kmer\<close>

text \<open>
  \<^verbatim>\<open>for i in range(0, len(read)-kmer_size+1): yield read[i:i+kmer_size]\<close>.
  The range is empty when its upper bound is not positive.
\<close>

definition cut_kmer :: "string \<Rightarrow> int \<Rightarrow> string list" where
  "cut_kmer read kmer_size =
     map (\<lambda>i. py_slice read (int i) (int i + kmer_size))
       [0 ..< nat (int (length read) - kmer_size + 1)]"

subsection \<open>Python list operations used by the selection policy\<close>

text \<open>\<^verbatim>\<open>max(xs)\<close> raises ValueError on an empty list.\<close>

fun py_max :: "'a::linorder list \<Rightarrow> error + 'a" where
  "py_max [] = Inl ValueError"
| "py_max (x # xs) = Inr (fold max xs x)"

text \<open>\<^verbatim>\<open>xs.index(v)\<close>: the first position of \<open>v\<close>, ValueError when it is absent.\<close>

fun py_index :: "'a list \<Rightarrow> 'a \<Rightarrow> error + nat" where
  "py_index [] v = Inl ValueError"
| "py_index (x # xs) v =
     (if x = v then Inr 0
      else (case py_index xs v of Inl e \<Rightarrow> Inl e | Inr i \<Rightarrow> Inr (Suc i)))"

text \<open>
  \<^verbatim>\<open>del xs[i]\<close>: a negative index counts from the end, an index out of range raises
  IndexError.
\<close>

definition py_del :: "'a list \<Rightarrow> int \<Rightarrow> error + 'a list" where
  "py_del xs i =
     (let k = (if i < 0 then i + int (length xs) else i)
      in if k < 0 \<or> int (length xs) \<le> k then Inl IndexError
         else Inr (take (nat k) xs @ drop (Suc (nat k)) xs))"

subsection \<open>The graph\<close>

text \<open>
  A \<^verbatim>\<open>networkx.DiGraph\<close>: the nodes in insertion order and the weighted edges in
  insertion order, at most one edge for an ordered pair of nodes.
  \<^verbatim>\<open>remove_nodes_from\<close> removes the given nodes with every edge that touches one of
  them, and ignores a node that is not in the graph.
\<close>

record 'n digraph =
  nodes :: "'n list"
  edges :: "('n \<times> 'n \<times> int) list"

definition remove_nodes_from :: "'n digraph \<Rightarrow> 'n list \<Rightarrow> 'n digraph" where
  "remove_nodes_from g ns =
     \<lparr>nodes = filter (\<lambda>n. n \<notin> set ns) (nodes g),
      edges = filter (\<lambda>(u, v, w). u \<notin> set ns \<and> v \<notin> set ns) (edges g)\<rparr>"

definition successors :: "'n digraph \<Rightarrow> 'n \<Rightarrow> 'n list" where
  "successors g n = map (\<lambda>(u, v, w). v) (filter (\<lambda>(u, v, w). u = n) (edges g))"

definition predecessors :: "'n digraph \<Rightarrow> 'n \<Rightarrow> 'n list" where
  "predecessors g n = map (\<lambda>(u, v, w). u) (filter (\<lambda>(u, v, w). v = n) (edges g))"

text \<open>
  \<^verbatim>\<open>networkx.all_simple_paths(G, source, target)\<close> is a depth-first search that keeps
  the list \<open>visited\<close> of the nodes of the current path, follows the successors in their
  order, yields \<open>visited + [child]\<close> when the child is the target and never extends a path
  beyond \<open>cutoff = len(G) - 1\<close> edges. For a source equal to the target it yields nothing
  (networkx 2.x).
\<close>

fun simple_paths_from :: "'n digraph \<Rightarrow> 'n \<Rightarrow> nat \<Rightarrow> 'n list \<Rightarrow> 'n \<Rightarrow> 'n list list" where
  "simple_paths_from g target 0 visited u = []"
| "simple_paths_from g target (Suc cutoff) visited u =
     concat (map (\<lambda>child.
        if child \<in> set visited then []
        else if child = target then [visited @ [child]]
        else simple_paths_from g target cutoff (visited @ [child]) child)
       (successors g u))"

definition all_simple_paths :: "'n digraph \<Rightarrow> 'n \<Rightarrow> 'n \<Rightarrow> error + 'n list list" where
  "all_simple_paths g source target =
     (if source \<in> set (nodes g) \<and> target \<in> set (nodes g) then
        if source = target then Inr []
        else Inr (simple_paths_from g target (length (nodes g) - 1) [source] source)
      else Inl NodeNotFound)"

text \<open>
  \<^verbatim>\<open>networkx.has_path(G, source, target)\<close>: NodeNotFound for a node that is not in the
  graph, otherwise whether the target can be reached from the source.
\<close>

definition has_path :: "'n digraph \<Rightarrow> 'n \<Rightarrow> 'n \<Rightarrow> error + bool" where
  "has_path g source target =
     (if source \<in> set (nodes g) \<and> target \<in> set (nodes g) then
        Inr (source = target
           \<or> simple_paths_from g target (length (nodes g) - 1) [source] source \<noteq> [])
      else Inl NodeNotFound)"

subsection \<open>remove\_paths\<close>

text \<open>
  One \<^verbatim>\<open>remove_nodes_from\<close> for each path of the list: \<^verbatim>\<open>path\<close>,
  \<^verbatim>\<open>path[:-1]\<close> (\<open>butlast\<close>), \<^verbatim>\<open>path[1:]\<close> (\<open>tl\<close>) or \<^verbatim>\<open>path[1:-1]\<close>, chosen by the
  two flags. The graph is changed in place and returned.
\<close>

fun remove_paths :: "'n digraph \<Rightarrow> 'n list list \<Rightarrow> bool \<Rightarrow> bool \<Rightarrow> 'n digraph" where
  "remove_paths graph [] delete_entry_node delete_sink_node = graph"
| "remove_paths graph (path # path_list) delete_entry_node delete_sink_node =
     remove_paths
       (if delete_entry_node \<and> delete_sink_node then remove_nodes_from graph path
        else if delete_entry_node \<and> \<not> delete_sink_node then
          remove_nodes_from graph (butlast path)
        else if \<not> delete_entry_node \<and> delete_sink_node then
          remove_nodes_from graph (tl path)
        else remove_nodes_from graph (butlast (tl path)))
       path_list delete_entry_node delete_sink_node"

subsection \<open>std and path\_average\_weight\<close>

text \<open>
  \<^verbatim>\<open>statistics.mean\<close> and \<^verbatim>\<open>statistics.stdev\<close> over exact numbers: the sample standard
  deviation needs at least two data points, the mean at least one.
\<close>

definition mean :: "real list \<Rightarrow> real" where
  "mean data = sum_list data / real (length data)"

definition std :: "real list \<Rightarrow> error + real" where
  "std data =
     (if length data < 2 then Inl StatisticsError
      else Inr (sqrt (sum_list (map (\<lambda>x. (x - mean data)\<^sup>2) data)
                        / real (length data - 1))))"

text \<open>The mean weight of the edges of the subgraph induced by the nodes of the path.\<close>

definition path_average_weight :: "'n digraph \<Rightarrow> 'n list \<Rightarrow> error + real" where
  "path_average_weight graph path =
     (let ws = map (\<lambda>(u, v, d). real_of_int d)
                 (filter (\<lambda>(u, v, d). u \<in> set path \<and> v \<in> set path) (edges graph))
      in if ws = [] then Inl StatisticsError else Inr (mean ws))"

subsection \<open>select\_best\_path\<close>

text \<open>
  A call either returns or raises; in both cases the graph and the state of the random
  generator are left as the call made them. \<^verbatim>\<open>select_best_path\<close> returns the graph
  object it was given, so its result is the graph of the final state.
\<close>

datatype outcome = Returned | Raised error

text \<open>
  The generator of the \<^verbatim>\<open>random\<close> module is a parameter: \<open>randint rng a b\<close> is the
  number drawn from the state \<open>rng\<close> and the state after the draw.
  \<^verbatim>\<open>random.randint(a, b)\<close> raises ValueError for an empty range.
\<close>

type_synonym 'r randint = "'r \<Rightarrow> int \<Rightarrow> int \<Rightarrow> int \<times> 'r"

text \<open>\<^verbatim>\<open>xs.index(max(xs))\<close>\<close>

definition index_of_max :: "'a::linorder list \<Rightarrow> error + nat" where
  "index_of_max xs = (case py_max xs of Inl e \<Rightarrow> Inl e | Inr m \<Rightarrow> py_index xs m)"

text \<open>
  The two statements that end each branch:
  \<^verbatim>\<open>del path_list[best_index]\<close> and
  \<^verbatim>\<open>return remove_paths(graph, path_list, delete_entry_node, delete_sink_node)\<close>.
\<close>

definition delete_and_remove ::
  "'n digraph \<Rightarrow> 'n list list \<Rightarrow> int \<Rightarrow> bool \<Rightarrow> bool \<Rightarrow> 'r \<Rightarrow> outcome \<times> 'n digraph \<times> 'r" where
  "delete_and_remove graph path_list best_index delete_entry_node delete_sink_node rng =
     (case py_del path_list best_index of
        Inl e \<Rightarrow> (Raised e, graph, rng)
      | Inr rest \<Rightarrow>
          (Returned, remove_paths graph rest delete_entry_node delete_sink_node, rng))"

definition select_best_path ::
  "'r randint \<Rightarrow> 'n digraph \<Rightarrow> 'n list list \<Rightarrow> int list \<Rightarrow> real list \<Rightarrow> bool \<Rightarrow> bool \<Rightarrow> 'r
     \<Rightarrow> outcome \<times> 'n digraph \<times> 'r" where
  "select_best_path randint graph path_list path_length weight_avg_list
       delete_entry_node delete_sink_node rng =
     (case std weight_avg_list of
        Inl e \<Rightarrow> (Raised e, graph, rng)
      | Inr s \<Rightarrow>
          if s > 0 then
            (case index_of_max weight_avg_list of
               Inl e \<Rightarrow> (Raised e, graph, rng)
             | Inr best_index \<Rightarrow>
                 delete_and_remove graph path_list (int best_index)
                   delete_entry_node delete_sink_node rng)
          else
            (case std (map real_of_int path_length) of
               Inl e \<Rightarrow> (Raised e, graph, rng)
             | Inr t \<Rightarrow>
                 if t > 0 then
                   (case index_of_max path_length of
                      Inl e \<Rightarrow> (Raised e, graph, rng)
                    | Inr best_index \<Rightarrow>
                        delete_and_remove graph path_list (int best_index)
                          delete_entry_node delete_sink_node rng)
                 else if int (length path_list) - 1 < 0 then (Raised ValueError, graph, rng)
                 else
                   (case randint rng 0 (int (length path_list) - 1) of
                      (best_index, rng') \<Rightarrow>
                        delete_and_remove graph path_list best_index
                          delete_entry_node delete_sink_node rng')))"

subsection \<open>Bubbles and tips\<close>

text \<open>
  \<^verbatim>\<open>solve_bubble\<close> starts by evaluating \<^verbatim>\<open>nx.all_simple_paths(graphe, ...)\<close>; the module
  binds no name \<^verbatim>\<open>graphe\<close>, so the call raises NameError before it touches the graph.
  The bodies of \<^verbatim>\<open>simplify_bubbles\<close>, \<^verbatim>\<open>solve_entry_tips\<close> and \<^verbatim>\<open>solve_out_tips\<close>
  are \<^verbatim>\<open>pass\<close>: they return None and leave the graph as it is.
\<close>

definition solve_bubble :: "'n digraph \<Rightarrow> 'n \<Rightarrow> 'n \<Rightarrow> outcome \<times> 'n digraph" where
  "solve_bubble graph ancestor_node descendant_node = (Raised NameError, graph)"

definition simplify_bubbles :: "'n digraph \<Rightarrow> outcome \<times> 'n digraph" where
  "simplify_bubbles graph = (Returned, graph)"

definition solve_entry_tips :: "'n digraph \<Rightarrow> 'n list \<Rightarrow> outcome \<times> 'n digraph" where
  "solve_entry_tips graph starting_nodes = (Returned, graph)"

definition solve_out_tips :: "'n digraph \<Rightarrow> 'n list \<Rightarrow> outcome \<times> 'n digraph" where
  "solve_out_tips graph ending_nodes = (Returned, graph)"

subsection \<open>Starting nodes, sink nodes and contigs\<close>

definition get_starting_nodes :: "'n digraph \<Rightarrow> 'n list" where
  "get_starting_nodes graph =
     filter (\<lambda>node. length (predecessors graph node) = 0) (nodes graph)"

definition get_sink_nodes :: "'n digraph \<Rightarrow> 'n list" where
  "get_sink_nodes graph =
     filter (\<lambda>node. length (successors graph node) = 0) (nodes graph)"

text \<open>
  The loop \<^verbatim>\<open>for i in range(1, len(n)): kmer = n[i]; contig += kmer[-1]\<close>;
  \<^verbatim>\<open>kmer[-1]\<close> raises IndexError on an empty string.
\<close>

fun extend_contig :: "string \<Rightarrow> string list \<Rightarrow> error + string" where
  "extend_contig contig [] = Inr contig"
| "extend_contig contig (kmer # rest) =
     (if kmer = [] then Inl IndexError else extend_contig (contig @ [last kmer]) rest)"

text \<open>\<^verbatim>\<open>contig = n[0]\<close> followed by that loop.\<close>

definition path_contig :: "string list \<Rightarrow> error + string" where
  "path_contig n = (case n of [] \<Rightarrow> Inl IndexError | n0 # rest \<Rightarrow> extend_contig n0 rest)"

text \<open>
  The loop over the paths of one pair of nodes, which appends
  \<^verbatim>\<open>[contig, len(contig)]\<close> to \<open>result\<close> for each path.
\<close>

fun get_contigs_paths ::
  "string list list \<Rightarrow> (string \<times> int) list \<Rightarrow> error + (string \<times> int) list" where
  "get_contigs_paths [] result = Inr result"
| "get_contigs_paths (n # ps) result =
     (case path_contig n of
        Inl e \<Rightarrow> Inl e
      | Inr contig \<Rightarrow> get_contigs_paths ps (result @ [(contig, int (length contig))]))"

text \<open>
  The loop over the ending nodes for one starting node. It is left by \<^verbatim>\<open>break\<close> at
  the first ending node that has no path from the starting node.
\<close>

fun get_contigs_ending ::
  "string digraph \<Rightarrow> string \<Rightarrow> string list \<Rightarrow> (string \<times> int) list
     \<Rightarrow> error + (string \<times> int) list" where
  "get_contigs_ending graph st_node [] result = Inr result"
| "get_contigs_ending graph st_node (en_node # ending_nodes) result =
     (case has_path graph st_node en_node of
        Inl e \<Rightarrow> Inl e
      | Inr reachable \<Rightarrow>
          if \<not> reachable then Inr result
          else
            (case all_simple_paths graph st_node en_node of
               Inl e \<Rightarrow> Inl e
             | Inr ps \<Rightarrow>
                 (case get_contigs_paths ps result of
                    Inl e \<Rightarrow> Inl e
                  | Inr result' \<Rightarrow> get_contigs_ending graph st_node ending_nodes result')))"

fun get_contigs_starting ::
  "string digraph \<Rightarrow> string list \<Rightarrow> string list \<Rightarrow> (string \<times> int) list
     \<Rightarrow> error + (string \<times> int) list" where
  "get_contigs_starting graph [] ending_nodes result = Inr result"
| "get_contigs_starting graph (st_node # starting_nodes) ending_nodes result =
     (case get_contigs_ending graph st_node ending_nodes result of
        Inl e \<Rightarrow> Inl e
      | Inr result' \<Rightarrow> get_contigs_starting graph starting_nodes ending_nodes result')"

definition get_contigs ::
  "string digraph \<Rightarrow> string list \<Rightarrow> string list \<Rightarrow> error + (string \<times> int) list" where
  "get_contigs graph starting_nodes ending_nodes =
     get_contigs_starting graph starting_nodes ending_nodes []"

subsection \<open>Notions used in the statements\<close>

text \<open>
  The nodes that \<open>remove_paths\<close> hands to \<^verbatim>\<open>remove_nodes_from\<close> for one path, as a
  function of the two flags.
\<close>

definition removed_nodes :: "'n list \<Rightarrow> bool \<Rightarrow> bool \<Rightarrow> 'n list" where
  "removed_nodes path delete_entry_node delete_sink_node =
     (if delete_entry_node \<and> delete_sink_node then path
      else if delete_entry_node then butlast path
      else if delete_sink_node then tl path
      else butlast (tl path))"

text \<open>
  A list of nodes is a path of the graph when its nodes are nodes of the graph and every
  node is followed by one of its successors.
\<close>

fun path_in :: "'n digraph \<Rightarrow> 'n list \<Rightarrow> bool" where
  "path_in g [] = True"
| "path_in g [u] = (u \<in> set (nodes g))"
| "path_in g (u # v # p) =
     (u \<in> set (nodes g) \<and> v \<in> set (successors g u) \<and> path_in g (v # p))"

subsection \<open>Example graphs and an example generator\<close>

text \<open>
  The graph of the 3-mers \<open>ABC\<close> and \<open>XYZ\<close>: two components, each one edge from a
  starting node to a sink node.
\<close>

definition two_components :: "string digraph" where
  "two_components =
     \<lparr>nodes = [''AB'', ''BC'', ''XY'', ''YZ''],
      edges = [(''AB'', ''BC'', 1), (''XY'', ''YZ'', 1)]\<rparr>"

text \<open>
  A bubble between \<open>AT\<close> and \<open>AG\<close>: the 3-mers \<open>ATC\<close>, \<open>TCA\<close>, \<open>CAG\<close> seen twice and
  \<open>ATG\<close>, \<open>TGA\<close>, \<open>GAG\<close> seen once.
\<close>

definition bubble_graph :: "string digraph" where
  "bubble_graph =
     \<lparr>nodes = [''AT'', ''TC'', ''CA'', ''AG'', ''TG'', ''GA''],
      edges = [(''AT'', ''TC'', 2), (''TC'', ''CA'', 2), (''CA'', ''AG'', 2),
               (''AT'', ''TG'', 1), (''TG'', ''GA'', 1), (''GA'', ''AG'', 1)]\<rparr>"

text \<open>
  An entry tip: the path \<open>AC\<close>, \<open>CG\<close>, \<open>GT\<close> of weight 5 and the node \<open>TC\<close>, without
  predecessor, that joins it at \<open>CG\<close> by an edge of weight 1.
\<close>

definition tip_graph :: "string digraph" where
  "tip_graph =
     \<lparr>nodes = [''AC'', ''CG'', ''GT'', ''TC''],
      edges = [(''AC'', ''CG'', 5), (''CG'', ''GT'', 5), (''TC'', ''CG'', 1)]\<rparr>"

text \<open>Two paths from \<open>GT\<close> to \<open>GG\<close> that share their second node \<open>TA\<close>.\<close>

definition shared_node_graph :: "string digraph" where
  "shared_node_graph =
     \<lparr>nodes = [''GT'', ''TA'', ''AC'', ''CG'', ''GG'', ''AT'', ''TG''],
      edges = [(''GT'', ''TA'', 3), (''TA'', ''AC'', 2), (''AC'', ''CG'', 2),
               (''CG'', ''GG'', 2), (''TA'', ''AT'', 1), (''AT'', ''TG'', 1),
               (''TG'', ''GG'', 1)]\<rparr>"

text \<open>
  The 3-mers \<open>GAC\<close>, \<open>GAA\<close>, \<open>AAC\<close>: an edge from \<open>GA\<close> to \<open>AC\<close> and a path of two
  edges between the same nodes.
\<close>

definition shortcut_graph :: "string digraph" where
  "shortcut_graph =
     \<lparr>nodes = [''GA'', ''AC'', ''AA''],
      edges = [(''GA'', ''AC'', 1), (''GA'', ''AA'', 5), (''AA'', ''AC'', 5)]\<rparr>"

text \<open>A generator whose state is a counter, for the examples.\<close>

definition counter_randint :: "nat randint" where
  "counter_randint rng a b = (a + int rng mod (b - a + 1), Suc rng)"

section \<open>Properties\<close>

subsection \<open>k-mer extraction\<close>

lemma py_slice_inside:
  assumes "1 \<le> k" and "int i + k \<le> int (length xs)"
  shows "py_slice xs (int i) (int i + k) = take (nat k) (drop i xs)"
proof -
  have lo: "slice_bound (length xs) (int i) = i"
    using assms by (simp add: slice_bound_def)
  have hi: "slice_bound (length xs) (int i + k) = i + nat k"
    using assms by (simp add: slice_bound_def nat_add_distrib)
  show ?thesis
    by (simp add: py_slice_def lo hi)
qed

lemma cut_kmer_nth:
  assumes "1 \<le> k" and "k \<le> int (length read)"
    and "i < nat (int (length read) - k + 1)"
  shows "cut_kmer read k ! i = take (nat k) (drop i read)"
proof -
  have "int i + k \<le> int (length read)"
    using assms by linarith
  then show ?thesis
    using assms by (simp add: cut_kmer_def py_slice_inside)
qed

text \<open>
  Claim C8. For a read of length \<open>L\<close> and a k-mer size \<open>k\<close> with \<open>1 \<le> k \<le> L\<close>,
  \<open>cut_kmer\<close> yields exactly \<open>L - k + 1\<close> substrings; the one at position \<open>i\<close> is the
  substring of the read that starts at offset \<open>i\<close> and has length \<open>k\<close>; two consecutive
  k-mers overlap in \<open>k - 1\<close> characters (the last \<open>k - 1\<close> of one are the first \<open>k - 1\<close> of
  the next). For \<open>k > L\<close> it yields the empty sequence.
\<close>

theorem cut_kmer_spec:
  "(1 \<le> k \<and> k \<le> int (length read) \<longrightarrow>
      int (length (cut_kmer read k)) = int (length read) - k + 1
    \<and> (\<forall>i < length (cut_kmer read k).
          cut_kmer read k ! i = take (nat k) (drop i read)
        \<and> int (length (cut_kmer read k ! i)) = k)
    \<and> (\<forall>i. Suc i < length (cut_kmer read k) \<longrightarrow>
          drop 1 (cut_kmer read k ! i) = take (nat k - 1) (cut_kmer read k ! Suc i)))
   \<and> (int (length read) < k \<longrightarrow> cut_kmer read k = [])"
proof (intro conjI impI)
  assume "int (length read) < k"
  then show "cut_kmer read k = []"
    by (simp add: cut_kmer_def)
next
  assume b: "1 \<le> k \<and> k \<le> int (length read)"
  show len: "int (length (cut_kmer read k)) = int (length read) - k + 1"
    using b by (simp add: cut_kmer_def)
  have n: "length (cut_kmer read k) = nat (int (length read) - k + 1)"
    by (simp add: cut_kmer_def)
  show "\<forall>i < length (cut_kmer read k).
          cut_kmer read k ! i = take (nat k) (drop i read)
        \<and> int (length (cut_kmer read k ! i)) = k"
  proof (intro allI impI)
    fix i assume i: "i < length (cut_kmer read k)"
    have nth: "cut_kmer read k ! i = take (nat k) (drop i read)"
      using b i n by (simp add: cut_kmer_nth)
    have "nat k \<le> length read - i"
      using b i n by linarith
    then have "int (length (take (nat k) (drop i read))) = k"
      using b by simp
    with nth show "cut_kmer read k ! i = take (nat k) (drop i read)
        \<and> int (length (cut_kmer read k ! i)) = k"
      by simp
  qed
  show "\<forall>i. Suc i < length (cut_kmer read k) \<longrightarrow>
          drop 1 (cut_kmer read k ! i) = take (nat k - 1) (cut_kmer read k ! Suc i)"
  proof (intro allI impI)
    fix i assume i: "Suc i < length (cut_kmer read k)"
    have a: "cut_kmer read k ! i = take (nat k) (drop i read)"
      using b i n by (simp add: cut_kmer_nth)
    have c: "cut_kmer read k ! Suc i = take (nat k) (drop (Suc i) read)"
      using b i n by (simp add: cut_kmer_nth)
    have "drop 1 (take (nat k) (drop i read)) = take (nat k - 1) (drop (Suc i) read)"
      by (simp add: drop_take)
    moreover have "take (nat k - 1) (take (nat k) (drop (Suc i) read))
        = take (nat k - 1) (drop (Suc i) read)"
      by (simp add: min_def)
    ultimately show "drop 1 (cut_kmer read k ! i) = take (nat k - 1) (cut_kmer read k ! Suc i)"
      by (simp add: a c)
  qed
qed

theorem cut_kmer_spec_witness:
  "cut_kmer ''ACGTA'' 3 = [''ACG'', ''CGT'', ''GTA'']
   \<and> int (length (cut_kmer ''ACGTA'' 3)) = int (length ''ACGTA'') - 3 + 1
   \<and> cut_kmer ''AC'' 3 = []"
proof -
  have e: "cut_kmer ''ACGTA'' 3 = [''ACG'', ''CGT'', ''GTA'']"
    by (simp add: cut_kmer_def py_slice_def slice_bound_def upt_rec)
  have "(1::int) \<le> 3 \<and> (3::int) \<le> int (length ''ACGTA'')"
    by simp
  then have "int (length (cut_kmer ''ACGTA'' 3)) = int (length ''ACGTA'') - 3 + 1"
    using cut_kmer_spec [of 3 "''ACGTA''"] by blast
  moreover have "int (length ''AC'') < 3"
    by simp
  then have "cut_kmer ''AC'' 3 = []"
    using cut_kmer_spec [of 3 "''AC''"] by blast
  ultimately show ?thesis
    using e by simp
qed

subsection \<open>remove\_paths\<close>

lemma nodes_remove_nodes_from:
  "set (nodes (remove_nodes_from g ns)) = set (nodes g) - set ns"
  by (auto simp add: remove_nodes_from_def)

lemma edges_remove_nodes_from:
  "set (edges (remove_nodes_from g ns))
     = {(u, v, w). (u, v, w) \<in> set (edges g) \<and> u \<notin> set ns \<and> v \<notin> set ns}"
  by (auto simp add: remove_nodes_from_def)

lemma remove_paths_Cons:
  "remove_paths g (p # ps) de ds
     = remove_paths (remove_nodes_from g (removed_nodes p de ds)) ps de ds"
  by (simp add: removed_nodes_def)

lemma nodes_remove_paths:
  "set (nodes (remove_paths g ps de ds))
     = set (nodes g) - (\<Union>p \<in> set ps. set (removed_nodes p de ds))"
proof (induction ps arbitrary: g)
  case Nil
  then show ?case by simp
next
  case (Cons p ps)
  show ?case
    unfolding remove_paths_Cons Cons.IH nodes_remove_nodes_from by auto
qed

lemma edges_remove_paths:
  "set (edges (remove_paths g ps de ds))
     = {(u, v, w). (u, v, w) \<in> set (edges g)
          \<and> u \<notin> (\<Union>p \<in> set ps. set (removed_nodes p de ds))
          \<and> v \<notin> (\<Union>p \<in> set ps. set (removed_nodes p de ds))}"
proof (induction ps arbitrary: g)
  case Nil
  then show ?case by simp
next
  case (Cons p ps)
  show ?case
    unfolding remove_paths_Cons Cons.IH edges_remove_nodes_from by auto
qed

lemma set_successors:
  "set (successors g u) = {v. \<exists>w. (u, v, w) \<in> set (edges g)}"
  by (auto simp add: successors_def image_iff)

lemma path_in_nodes: "path_in g p \<Longrightarrow> set p \<subseteq> set (nodes g)"
  by (induction g p rule: path_in.induct) auto

lemma path_in_remove_paths:
  assumes "path_in g p"
    and "set p \<inter> (\<Union>q \<in> set ps. set (removed_nodes q de ds)) = {}"
  shows "path_in (remove_paths g ps de ds) p"
  using assms
proof (induction g p rule: path_in.induct)
  case (1 g)
  then show ?case by simp
next
  case (2 g u)
  then show ?case by (simp add: nodes_remove_paths)
next
  case (3 g u v p)
  from "3.prems" have "path_in (remove_paths g ps de ds) (v # p)"
    using "3.IH" by auto
  moreover from "3.prems" have "u \<in> set (nodes (remove_paths g ps de ds))"
    by (simp add: nodes_remove_paths)
  moreover from "3.prems" have "v \<in> set (successors (remove_paths g ps de ds) u)"
    by (auto simp add: set_successors edges_remove_paths)
  ultimately show ?case by simp
qed

lemma set_removed_nodes: "set (removed_nodes p de ds) \<subseteq> set p"
  by (cases p) (auto simp add: removed_nodes_def dest: in_set_butlastD)

lemma butlast_tl_subsets:
  "set (butlast (tl p)) \<subseteq> set p"
  "set (butlast (tl p)) \<subseteq> set (butlast p)"
  "set (butlast (tl p)) \<subseteq> set (tl p)"
  by (cases p; auto dest: in_set_butlastD)+

lemma interior_removed: "set (butlast (tl p)) \<subseteq> set (removed_nodes p de ds)"
  using butlast_tl_subsets [of p] by (simp add: removed_nodes_def)

lemma hd_removed:
  "de \<Longrightarrow> 2 \<le> length p \<or> ds \<Longrightarrow> p \<noteq> [] \<Longrightarrow> hd p \<in> set (removed_nodes p de ds)"
  by (cases p; cases "tl p") (auto simp add: removed_nodes_def)

lemma last_removed:
  "ds \<Longrightarrow> 2 \<le> length p \<or> de \<Longrightarrow> p \<noteq> [] \<Longrightarrow> last p \<in> set (removed_nodes p de ds)"
  by (cases p; cases "tl p") (auto simp add: removed_nodes_def)

text \<open>
  Claim C3, as amended. For every path of the list given to \<open>remove_paths\<close>:
  its interior nodes are removed, whatever the flags;
  when both flags are false, a node is in the resulting graph exactly when it was in the
  graph and is an interior node of no path of the list, so an endpoint of the path
  remains unless it is an interior node of a path of the list;
  when \<open>delete_entry_node\<close> is true, the first node of the path is removed as well,
  provided the path has two nodes or more or \<open>delete_sink_node\<close> is true too;
  when \<open>delete_sink_node\<close> is true, the last node of the path is removed as well,
  provided the path has two nodes or more or \<open>delete_entry_node\<close> is true too.
\<close>

theorem remove_paths_contract:
  assumes "path \<in> set path_list"
  shows "(\<forall>n \<in> set (butlast (tl path)).
            n \<notin> set (nodes (remove_paths graph path_list de ds)))
    \<and> (\<not> de \<and> \<not> ds \<longrightarrow>
         (\<forall>n. n \<in> set (nodes (remove_paths graph path_list de ds))
            \<longleftrightarrow> n \<in> set (nodes graph) \<and> (\<forall>q \<in> set path_list. n \<notin> set (butlast (tl q)))))
    \<and> (de \<and> (2 \<le> length path \<or> ds) \<and> path \<noteq> [] \<longrightarrow>
         hd path \<notin> set (nodes (remove_paths graph path_list de ds)))
    \<and> (ds \<and> (2 \<le> length path \<or> de) \<and> path \<noteq> [] \<longrightarrow>
         last path \<notin> set (nodes (remove_paths graph path_list de ds)))"
proof (intro conjI impI)
  show "\<forall>n \<in> set (butlast (tl path)).
            n \<notin> set (nodes (remove_paths graph path_list de ds))"
    using assms interior_removed [of path de ds] unfolding nodes_remove_paths by blast
next
  assume "\<not> de \<and> \<not> ds"
  then have "removed_nodes q de ds = butlast (tl q)" for q :: "'a list"
    by (simp add: removed_nodes_def)
  then show "\<forall>n. n \<in> set (nodes (remove_paths graph path_list de ds))
            \<longleftrightarrow> n \<in> set (nodes graph) \<and> (\<forall>q \<in> set path_list. n \<notin> set (butlast (tl q)))"
    unfolding nodes_remove_paths by simp
next
  assume "de \<and> (2 \<le> length path \<or> ds) \<and> path \<noteq> []"
  then have "hd path \<in> set (removed_nodes path de ds)"
    by (intro hd_removed) simp_all
  with assms show "hd path \<notin> set (nodes (remove_paths graph path_list de ds))"
    unfolding nodes_remove_paths by blast
next
  assume "ds \<and> (2 \<le> length path \<or> de) \<and> path \<noteq> []"
  then have "last path \<in> set (removed_nodes path de ds)"
    by (intro last_removed) simp_all
  with assms show "last path \<notin> set (nodes (remove_paths graph path_list de ds))"
    unfolding nodes_remove_paths by blast
qed

theorem remove_paths_contract_witness:
  "[''AT'', ''TG'', ''GA'', ''AG''] \<in> set [[''AT'', ''TG'', ''GA'', ''AG'']]
   \<and> nodes (remove_paths bubble_graph [[''AT'', ''TG'', ''GA'', ''AG'']] False False)
       = [''AT'', ''TC'', ''CA'', ''AG'']
   \<and> ''TG'' \<notin> set (nodes (remove_paths bubble_graph [[''AT'', ''TG'', ''GA'', ''AG'']]
                            False False))
   \<and> ''AT'' \<notin> set (nodes (remove_paths bubble_graph [[''AT'', ''TG'', ''GA'', ''AG'']]
                            True False))
   \<and> ''AG'' \<notin> set (nodes (remove_paths bubble_graph [[''AT'', ''TG'', ''GA'', ''AG'']]
                            False True))"
proof -
  have m: "[''AT'', ''TG'', ''GA'', ''AG''] \<in> set [[''AT'', ''TG'', ''GA'', ''AG'']]"
    by simp
  have e: "nodes (remove_paths bubble_graph [[''AT'', ''TG'', ''GA'', ''AG'']] False False)
       = [''AT'', ''TC'', ''CA'', ''AG'']"
    by (simp add: remove_nodes_from_def bubble_graph_def)
  have a: "''TG'' \<notin> set (nodes (remove_paths bubble_graph [[''AT'', ''TG'', ''GA'', ''AG'']]
                            False False))"
    using remove_paths_contract [OF m, of bubble_graph False False] by simp
  have b: "''AT'' \<notin> set (nodes (remove_paths bubble_graph [[''AT'', ''TG'', ''GA'', ''AG'']]
                            True False))"
    using remove_paths_contract [OF m, of bubble_graph True False] by simp
  have c: "''AG'' \<notin> set (nodes (remove_paths bubble_graph [[''AT'', ''TG'', ''GA'', ''AG'']]
                            False True))"
    using remove_paths_contract [OF m, of bubble_graph False True] by simp
  from m e a b c show ?thesis by blast
qed

text \<open>
  With both flags false, the first node \<open>TC\<close> of the path \<open>TC, CA, AG\<close> is removed,
  because it is an interior node of the other path of the list; and with
  \<open>delete_entry_node\<close> alone, the first node of the one-node path \<open>AT\<close> stays.
\<close>

theorem remove_paths_contract_counterexample:
  "nodes (remove_paths bubble_graph [[''TC'', ''CA'', ''AG''], [''AT'', ''TC'', ''CA'']]
            False False) = [''AT'', ''AG'', ''TG'', ''GA'']
   \<and> hd [''TC'', ''CA'', ''AG''] \<notin> set (nodes (remove_paths bubble_graph
            [[''TC'', ''CA'', ''AG''], [''AT'', ''TC'', ''CA'']] False False))
   \<and> remove_paths bubble_graph [[''AT'']] True False = bubble_graph
   \<and> hd [''AT''] \<in> set (nodes (remove_paths bubble_graph [[''AT'']] True False))"
  by (simp add: remove_nodes_from_def bubble_graph_def)

subsection \<open>select\_best\_path\<close>

lemma py_index_first:
  "v \<in> set xs \<Longrightarrow>
   \<exists>i < length xs. py_index xs v = Inr i \<and> xs ! i = v \<and> (\<forall>j < i. xs ! j \<noteq> v)"
proof (induction xs)
  case Nil
  then show ?case by simp
next
  case (Cons x xs)
  show ?case
  proof (cases "x = v")
    case True
    then show ?thesis by simp
  next
    case False
    with Cons.prems have "v \<in> set xs" by simp
    from Cons.IH [OF this] obtain i where i: "i < length xs" "py_index xs v = Inr i"
      "xs ! i = v" "\<forall>j < i. xs ! j \<noteq> v"
      by blast
    have "\<forall>j < Suc i. (x # xs) ! j \<noteq> v"
    proof (intro allI impI)
      fix j assume "j < Suc i"
      then show "(x # xs) ! j \<noteq> v"
        using False i(4) by (cases j) auto
    qed
    with False i show ?thesis
      by (intro exI [of _ "Suc i"]) simp
  qed
qed

lemma py_max_Max:
  assumes "xs \<noteq> []"
  shows "py_max xs = Inr (Max (set xs))"
proof (cases xs)
  case Nil
  with assms show ?thesis by simp
next
  case (Cons x ys)
  have "fold max ys x = Max (set (x # ys))"
    by (rule Max.set_eq_fold [symmetric])
  with Cons show ?thesis by simp
qed

lemma index_of_max_first:
  fixes xs :: "'a::linorder list"
  assumes "xs \<noteq> []"
  shows "\<exists>b < length xs. index_of_max xs = Inr b
           \<and> (\<forall>x \<in> set xs. x \<le> xs ! b) \<and> (\<forall>j < b. xs ! j < xs ! b)"
proof -
  have m: "Max (set xs) \<in> set xs"
    using assms by (intro Max_in) simp_all
  from py_index_first [OF m] obtain b where b: "b < length xs"
    "py_index xs (Max (set xs)) = Inr b" "xs ! b = Max (set xs)"
    "\<forall>j < b. xs ! j \<noteq> Max (set xs)"
    by blast
  have le: "\<forall>x \<in> set xs. x \<le> xs ! b"
    using b(3) by simp
  have "\<forall>j < b. xs ! j < xs ! b"
  proof (intro allI impI)
    fix j assume j: "j < b"
    with b(1) have "xs ! j \<in> set xs" by simp
    with le have "xs ! j \<le> xs ! b" by blast
    moreover from j b(3,4) have "xs ! j \<noteq> xs ! b" by simp
    ultimately show "xs ! j < xs ! b" by simp
  qed
  with b le show ?thesis
    using assms by (auto simp add: index_of_max_def py_max_Max)
qed

lemma py_del_inside:
  "b < length xs \<Longrightarrow> py_del xs (int b) = Inr (take b xs @ drop (Suc b) xs)"
  by (simp add: py_del_def)

text \<open>
  The standard deviation is positive exactly when the data are not all equal to their
  mean, that is, not all equal.
\<close>

lemma sum_list_squares_pos:
  fixes f :: "real \<Rightarrow> real"
  shows "0 < sum_list (map (\<lambda>x. (f x)\<^sup>2) xs) \<longleftrightarrow> (\<exists>x \<in> set xs. f x \<noteq> 0)"
proof (induction xs)
  case Nil
  then show ?case by simp
next
  case (Cons x xs)
  have nn: "0 \<le> sum_list (map (\<lambda>x. (f x)\<^sup>2) xs)"
    by (rule sum_list_nonneg) auto
  show ?case
  proof (cases "f x = 0")
    case True
    with Cons.IH show ?thesis by simp
  next
    case False
    then have "0 < (f x)\<^sup>2" by simp
    with nn have "0 < (f x)\<^sup>2 + sum_list (map (\<lambda>x. (f x)\<^sup>2) xs)"
      by linarith
    with False show ?thesis by auto
  qed
qed

lemma zero_less_divide_iff_pos:
  fixes a b :: real
  shows "0 < b \<Longrightarrow> 0 < a / b \<longleftrightarrow> 0 < a"
  by (simp add: zero_less_divide_iff)

lemma std_positive:
  assumes "std data = Inr s"
  shows "0 < s \<longleftrightarrow> (\<exists>x \<in> set data. x \<noteq> mean data)"
proof -
  from assms have n: "2 \<le> length data"
    and s: "s = sqrt (sum_list (map (\<lambda>x. (x - mean data)\<^sup>2) data) / real (length data - 1))"
    by (auto simp add: std_def split: if_splits)
  from n have "0 < real (length data - 1)" by simp
  then have "0 < s \<longleftrightarrow> 0 < sum_list (map (\<lambda>x. (x - mean data)\<^sup>2) data)"
    unfolding s real_sqrt_gt_0_iff by (rule zero_less_divide_iff_pos)
  also have "\<dots> \<longleftrightarrow> (\<exists>x \<in> set data. x - mean data \<noteq> 0)"
    by (rule sum_list_squares_pos)
  finally show ?thesis by simp
qed

lemma std_two: "std data = Inr s \<Longrightarrow> 2 \<le> length data"
  by (simp add: std_def split: if_splits)

text \<open>
  Claim C1, as amended. When the list of average weights is as long as the list of
  candidate paths and its standard deviation is not zero, \<open>select_best_path\<close> returns
  without error, and with \<open>best\<close> the first position of the maximum average weight:
  the graph it leaves is the graph without the nodes that \<open>remove_paths\<close> removes for the
  candidates other than the one at \<open>best\<close>;
  each of these nodes is gone, so that every other candidate of which a node is
  removed (with both flags false: every other candidate of three nodes or more) is no
  longer a path of the graph;
  every other candidate that was a path of the graph and has no node among the nodes
  removed for those candidates (so that nothing is removed for it: with both flags
  false it has two nodes at most, neither an interior node of another of them) is still
  a path of the graph;
  and the candidate at \<open>best\<close> is still a path of the graph, provided it was one and
  none of its nodes is among the nodes removed for another candidate.
\<close>

theorem select_best_path_by_weight:
  assumes "length weight_avg_list = length path_list"
    and "std weight_avg_list = Inr s" and "0 < s"
  shows "\<exists>best < length path_list.
      (\<forall>x \<in> set weight_avg_list. x \<le> weight_avg_list ! best)
    \<and> (\<forall>j < best. weight_avg_list ! j < weight_avg_list ! best)
    \<and> select_best_path randint graph path_list path_length weight_avg_list de ds rng
        = (Returned,
           remove_paths graph (take best path_list @ drop (Suc best) path_list) de ds, rng)
    \<and> (\<forall>q \<in> set (take best path_list @ drop (Suc best) path_list).
          (\<forall>n \<in> set (removed_nodes q de ds).
             n \<notin> set (nodes (remove_paths graph
                    (take best path_list @ drop (Suc best) path_list) de ds)))
        \<and> (removed_nodes q de ds \<noteq> [] \<longrightarrow>
             \<not> path_in (remove_paths graph
                    (take best path_list @ drop (Suc best) path_list) de ds) q))
    \<and> (\<forall>q \<in> set (take best path_list @ drop (Suc best) path_list).
          path_in graph q
          \<and> (\<forall>q' \<in> set (take best path_list @ drop (Suc best) path_list).
                set (removed_nodes q' de ds) \<inter> set q = {})
          \<longrightarrow> path_in (remove_paths graph
                    (take best path_list @ drop (Suc best) path_list) de ds) q)
    \<and> (path_in graph (path_list ! best)
        \<and> (\<forall>q \<in> set (take best path_list @ drop (Suc best) path_list).
              set (removed_nodes q de ds) \<inter> set (path_list ! best) = {})
        \<longrightarrow> path_in (remove_paths graph
                    (take best path_list @ drop (Suc best) path_list) de ds)
              (path_list ! best))"
proof -
  from std_two [OF assms(2)] have ne: "weight_avg_list \<noteq> []" by auto
  from index_of_max_first [OF ne] obtain b where b: "b < length weight_avg_list"
    "index_of_max weight_avg_list = Inr b"
    "\<forall>x \<in> set weight_avg_list. x \<le> weight_avg_list ! b"
    "\<forall>j < b. weight_avg_list ! j < weight_avg_list ! b"
    by blast
  let ?rest = "take b path_list @ drop (Suc b) path_list"
  let ?g = "remove_paths graph ?rest de ds"
  have bl: "b < length path_list"
    using b(1) assms(1) by simp
  have run: "select_best_path randint graph path_list path_length weight_avg_list de ds rng
        = (Returned, ?g, rng)"
    using assms(2,3) b(2) bl
    by (simp add: select_best_path_def delete_and_remove_def py_del_inside)
  have gone: "\<forall>q \<in> set ?rest.
          (\<forall>n \<in> set (removed_nodes q de ds). n \<notin> set (nodes ?g))
        \<and> (removed_nodes q de ds \<noteq> [] \<longrightarrow> \<not> path_in ?g q)"
  proof
    fix q assume q: "q \<in> set ?rest"
    have a: "\<forall>n \<in> set (removed_nodes q de ds). n \<notin> set (nodes ?g)"
      using q unfolding nodes_remove_paths by blast
    have "\<not> path_in ?g q" if "removed_nodes q de ds \<noteq> []"
    proof
      assume p: "path_in ?g q"
      from that obtain n where n: "n \<in> set (removed_nodes q de ds)"
        by (cases "removed_nodes q de ds") auto
      with set_removed_nodes [of q de ds] have "n \<in> set q" by blast
      with path_in_nodes [OF p] have "n \<in> set (nodes ?g)" by blast
      with a n show False by blast
    qed
    with a show "(\<forall>n \<in> set (removed_nodes q de ds). n \<notin> set (nodes ?g))
        \<and> (removed_nodes q de ds \<noteq> [] \<longrightarrow> \<not> path_in ?g q)"
      by blast
  qed
  have stay: "\<forall>q \<in> set ?rest.
          path_in graph q
          \<and> (\<forall>q' \<in> set ?rest. set (removed_nodes q' de ds) \<inter> set q = {})
          \<longrightarrow> path_in ?g q"
  proof (intro ballI impI)
    fix q
    assume h: "path_in graph q
          \<and> (\<forall>q' \<in> set ?rest. set (removed_nodes q' de ds) \<inter> set q = {})"
    then have "set q \<inter> (\<Union>q' \<in> set ?rest. set (removed_nodes q' de ds)) = {}"
      by blast
    with h show "path_in ?g q"
      by (intro path_in_remove_paths) simp_all
  qed
  have kept: "path_in graph (path_list ! b)
        \<and> (\<forall>q \<in> set ?rest. set (removed_nodes q de ds) \<inter> set (path_list ! b) = {})
        \<longrightarrow> path_in ?g (path_list ! b)"
  proof
    assume h: "path_in graph (path_list ! b)
        \<and> (\<forall>q \<in> set ?rest. set (removed_nodes q de ds) \<inter> set (path_list ! b) = {})"
    then have "set (path_list ! b) \<inter> (\<Union>q \<in> set ?rest. set (removed_nodes q de ds)) = {}"
      by blast
    with h show "path_in ?g (path_list ! b)"
      by (intro path_in_remove_paths) simp_all
  qed
  from bl b(3,4) run gone stay kept show ?thesis
    by blast
qed

theorem select_best_path_by_weight_witness:
  "length [2, 1 :: real] = length [[''AT'', ''TC'', ''CA'', ''AG''], [''AT'', ''TG'', ''GA'', ''AG'']]
   \<and> (\<exists>s. std [2, 1] = Inr s \<and> 0 < s)
   \<and> select_best_path counter_randint bubble_graph
        [[''AT'', ''TC'', ''CA'', ''AG''], [''AT'', ''TG'', ''GA'', ''AG'']]
        [4, 4] [2, 1] False False 9001
      = (Returned, remove_paths bubble_graph [[''AT'', ''TG'', ''GA'', ''AG'']] False False, 9001)
   \<and> path_in (remove_paths bubble_graph [[''AT'', ''TG'', ''GA'', ''AG'']] False False)
        [''AT'', ''TC'', ''CA'', ''AG'']
   \<and> \<not> path_in (remove_paths bubble_graph [[''AT'', ''TG'', ''GA'', ''AG'']] False False)
        [''AT'', ''TG'', ''GA'', ''AG'']
   \<and> length [1, 11 / 3 :: real] = length [[''GA'', ''AC''], [''GA'', ''AA'', ''AC'']]
   \<and> (\<exists>s. std [1, 11 / 3] = Inr s \<and> 0 < s)
   \<and> path_in (remove_paths shortcut_graph [[''GA'', ''AC'']] False False) [''GA'', ''AC'']"
proof -
  let ?p1 = "[''AT'', ''TC'', ''CA'', ''AG'']"
  let ?p2 = "[''AT'', ''TG'', ''GA'', ''AG'']"
  let ?w = "[2, 1 :: real]"
  have len: "length ?w = length [?p1, ?p2]"
    by simp
  obtain s where s: "std ?w = Inr s" "0 < s"
    by (simp add: std_def mean_def)
  have p1: "path_in bubble_graph ?p1"
    by (simp add: bubble_graph_def successors_def)
  have first: "select_best_path counter_randint bubble_graph [?p1, ?p2] [4, 4] ?w
        False False 9001
      = (Returned, remove_paths bubble_graph [?p2] False False, 9001)
    \<and> path_in (remove_paths bubble_graph [?p2] False False) ?p1
    \<and> \<not> path_in (remove_paths bubble_graph [?p2] False False) ?p2"
    using select_best_path_by_weight [OF len s, of counter_randint bubble_graph "[4, 4]"
        False False 9001]
  proof (elim exE conjE, goal_cases)
    case (1 best)
    have b0: "best = 0"
    proof (rule ccontr)
      assume "best \<noteq> 0"
      with 1(1) have "best = 1" by simp
      with 1(2) show False by simp
    qed
    have run: "select_best_path counter_randint bubble_graph [?p1, ?p2] [4, 4] ?w
          False False 9001
        = (Returned, remove_paths bubble_graph [?p2] False False, 9001)"
      using 1(4) unfolding b0 by simp
    have gone: "\<not> path_in (remove_paths bubble_graph [?p2] False False) ?p2"
      using 1(5) unfolding b0 by (simp add: removed_nodes_def)
    have kept: "path_in (remove_paths bubble_graph [?p2] False False) ?p1"
      using 1(7) p1 unfolding b0 by (simp add: removed_nodes_def)
    from run kept gone show ?case by simp
  qed
  let ?q1 = "[''GA'', ''AC'']"
  let ?q2 = "[''GA'', ''AA'', ''AC'']"
  let ?v = "[1, 11 / 3 :: real]"
  have len': "length ?v = length [?q1, ?q2]"
    by simp
  obtain t where t: "std ?v = Inr t" "0 < t"
    by (simp add: std_def mean_def)
  have q1: "path_in shortcut_graph ?q1"
    by (simp add: shortcut_graph_def successors_def)
  have second: "path_in (remove_paths shortcut_graph [?q1] False False) ?q1"
    using select_best_path_by_weight [OF len' t, of counter_randint shortcut_graph "[2, 3]"
        False False 9001]
  proof (elim exE conjE, goal_cases)
    case (1 best)
    have b1: "best = 1"
    proof (rule ccontr)
      assume "best \<noteq> 1"
      with 1(1) have z: "best = 0" by simp
      have "(11 / 3 :: real) \<in> set ?v" by simp
      with 1(2) have "(11 / 3 :: real) \<le> ?v ! best" by blast
      with z show False by simp
    qed
    show ?case
      using 1(6) q1 unfolding b1 by (simp add: removed_nodes_def)
  qed
  from len s first len' t second show ?thesis by blast
qed

text \<open>
  In \<open>shared_node_graph\<close> the two paths from \<open>GT\<close> to \<open>GG\<close> share the node \<open>TA\<close>: it
  is removed with the weaker path, and the path of maximum average weight is no longer
  a path of the graph. In \<open>shortcut_graph\<close> the weaker candidate has two nodes, nothing
  is removed, and it is still a path of the graph.
\<close>

theorem select_best_path_by_weight_counterexample:
  "all_simple_paths shared_node_graph ''GT'' ''GG''
     = Inr [[''GT'', ''TA'', ''AC'', ''CG'', ''GG''], [''GT'', ''TA'', ''AT'', ''TG'', ''GG'']]
   \<and> path_average_weight shared_node_graph [''GT'', ''TA'', ''AC'', ''CG'', ''GG''] = Inr (9 / 4)
   \<and> path_average_weight shared_node_graph [''GT'', ''TA'', ''AT'', ''TG'', ''GG''] = Inr (3 / 2)
   \<and> select_best_path counter_randint shared_node_graph
        [[''GT'', ''TA'', ''AC'', ''CG'', ''GG''], [''GT'', ''TA'', ''AT'', ''TG'', ''GG'']]
        [5, 5] [9 / 4, 3 / 2] False False 9001
      = (Returned,
         \<lparr>nodes = [''GT'', ''AC'', ''CG'', ''GG''],
          edges = [(''AC'', ''CG'', 2), (''CG'', ''GG'', 2)]\<rparr>, 9001)
   \<and> \<not> path_in \<lparr>nodes = [''GT'', ''AC'', ''CG'', ''GG''],
          edges = [(''AC'', ''CG'', 2), (''CG'', ''GG'', 2)]\<rparr>
         [''GT'', ''TA'', ''AC'', ''CG'', ''GG'']
   \<and> all_simple_paths shortcut_graph ''GA'' ''AC''
     = Inr [[''GA'', ''AC''], [''GA'', ''AA'', ''AC'']]
   \<and> path_average_weight shortcut_graph [''GA'', ''AC''] = Inr 1
   \<and> path_average_weight shortcut_graph [''GA'', ''AA'', ''AC''] = Inr (11 / 3)
   \<and> select_best_path counter_randint shortcut_graph
        [[''GA'', ''AC''], [''GA'', ''AA'', ''AC'']] [2, 3] [1, 11 / 3] False False 9001
      = (Returned, shortcut_graph, 9001)
   \<and> path_in shortcut_graph [''GA'', ''AC'']"
proof -
  have 1: "all_simple_paths shared_node_graph ''GT'' ''GG''
     = Inr [[''GT'', ''TA'', ''AC'', ''CG'', ''GG''], [''GT'', ''TA'', ''AT'', ''TG'', ''GG'']]"
    by (simp add: all_simple_paths_def shared_node_graph_def successors_def eval_nat_numeral)
  have 2: "path_average_weight shared_node_graph [''GT'', ''TA'', ''AC'', ''CG'', ''GG'']
     = Inr (9 / 4)"
    by (simp add: path_average_weight_def mean_def shared_node_graph_def)
  have 3: "path_average_weight shared_node_graph [''GT'', ''TA'', ''AT'', ''TG'', ''GG'']
     = Inr (3 / 2)"
    by (simp add: path_average_weight_def mean_def shared_node_graph_def)
  have 4: "select_best_path counter_randint shared_node_graph
        [[''GT'', ''TA'', ''AC'', ''CG'', ''GG''], [''GT'', ''TA'', ''AT'', ''TG'', ''GG'']]
        [5, 5] [9 / 4, 3 / 2] False False 9001
      = (Returned,
         \<lparr>nodes = [''GT'', ''AC'', ''CG'', ''GG''],
          edges = [(''AC'', ''CG'', 2), (''CG'', ''GG'', 2)]\<rparr>, 9001)"
    by (simp add: select_best_path_def std_def mean_def index_of_max_def
        delete_and_remove_def py_del_def remove_nodes_from_def shared_node_graph_def)
  have 5: "\<not> path_in \<lparr>nodes = [''GT'', ''AC'', ''CG'', ''GG''],
          edges = [(''AC'', ''CG'', 2), (''CG'', ''GG'', 2)]\<rparr>
         [''GT'', ''TA'', ''AC'', ''CG'', ''GG'']"
    by (simp add: successors_def)
  have 6: "all_simple_paths shortcut_graph ''GA'' ''AC''
     = Inr [[''GA'', ''AC''], [''GA'', ''AA'', ''AC'']]"
    by (simp add: all_simple_paths_def shortcut_graph_def successors_def eval_nat_numeral)
  have 7: "path_average_weight shortcut_graph [''GA'', ''AC''] = Inr 1"
    by (simp add: path_average_weight_def mean_def shortcut_graph_def)
  have 8: "path_average_weight shortcut_graph [''GA'', ''AA'', ''AC''] = Inr (11 / 3)"
    by (simp add: path_average_weight_def mean_def shortcut_graph_def)
  have 9: "select_best_path counter_randint shortcut_graph
        [[''GA'', ''AC''], [''GA'', ''AA'', ''AC'']] [2, 3] [1, 11 / 3] False False 9001
      = (Returned, shortcut_graph, 9001)"
    by (simp add: select_best_path_def std_def mean_def index_of_max_def
        delete_and_remove_def py_del_def remove_nodes_from_def shortcut_graph_def)
  have 10: "path_in shortcut_graph [''GA'', ''AC'']"
    by (simp add: successors_def shortcut_graph_def)
  from 1 2 3 4 5 6 7 8 9 10 show ?thesis by blast
qed




subsection \<open>Bubbles and tips\<close>

text \<open>
  Claim C2, evaluated on \<open>bubble_graph\<close>. There are two simple paths from \<open>AT\<close> to
  \<open>AG\<close>; \<open>simplify_bubbles\<close> returns with the graph unchanged, so both paths are still
  there, and \<open>solve_bubble\<close> on this pair raises NameError.
\<close>

theorem simplify_bubbles_keeps_bubble:
  "all_simple_paths bubble_graph ''AT'' ''AG''
     = Inr [[''AT'', ''TC'', ''CA'', ''AG''], [''AT'', ''TG'', ''GA'', ''AG'']]
   \<and> simplify_bubbles bubble_graph = (Returned, bubble_graph)
   \<and> all_simple_paths (snd (simplify_bubbles bubble_graph)) ''AT'' ''AG''
     = Inr [[''AT'', ''TC'', ''CA'', ''AG''], [''AT'', ''TG'', ''GA'', ''AG'']]
   \<and> solve_bubble bubble_graph ''AT'' ''AG'' = (Raised NameError, bubble_graph)"
proof -
  have "all_simple_paths bubble_graph ''AT'' ''AG''
     = Inr [[''AT'', ''TC'', ''CA'', ''AG''], [''AT'', ''TG'', ''GA'', ''AG'']]"
    by (simp add: all_simple_paths_def bubble_graph_def successors_def eval_nat_numeral)
  then show ?thesis
    by (simp add: simplify_bubbles_def solve_bubble_def)
qed

text \<open>
  Claim C6, evaluated on \<open>tip_graph\<close>. \<open>TC\<close> is a starting node whose path to the
  junction \<open>CG\<close> has average weight 1, against 5 for the path from \<open>AC\<close>;
  \<open>solve_entry_tips\<close> returns with the graph unchanged, and \<open>TC\<close> is still a node of it.
\<close>

theorem solve_entry_tips_keeps_tip:
  "get_starting_nodes tip_graph = [''AC'', ''TC'']
   \<and> path_average_weight tip_graph [''TC'', ''CG''] = Inr 1
   \<and> path_average_weight tip_graph [''AC'', ''CG''] = Inr 5
   \<and> solve_entry_tips tip_graph (get_starting_nodes tip_graph) = (Returned, tip_graph)
   \<and> ''TC'' \<in> set (nodes (snd (solve_entry_tips tip_graph (get_starting_nodes tip_graph))))"
proof -
  have "get_starting_nodes tip_graph = [''AC'', ''TC'']"
    by (simp add: get_starting_nodes_def predecessors_def tip_graph_def)
  moreover have "path_average_weight tip_graph [''TC'', ''CG''] = Inr 1"
    by (simp add: path_average_weight_def mean_def tip_graph_def)
  moreover have "path_average_weight tip_graph [''AC'', ''CG''] = Inr 5"
    by (simp add: path_average_weight_def mean_def tip_graph_def)
  moreover have "''TC'' \<in> set (nodes tip_graph)"
    by (simp add: tip_graph_def)
  ultimately show ?thesis
    by (simp add: solve_entry_tips_def)
qed

subsection \<open>Contigs\<close>

lemma extend_contig_length:
  "\<forall>nd \<in> set rest. nd \<noteq> [] \<Longrightarrow>
   \<exists>c. extend_contig contig rest = Inr c \<and> length c = length contig + length rest"
proof (induction rest arbitrary: contig)
  case Nil
  then show ?case by simp
next
  case (Cons kmer rest)
  from Cons.prems have ne: "kmer \<noteq> []" and rest: "\<forall>nd \<in> set rest. nd \<noteq> []"
    by simp_all
  from Cons.IH [OF rest, of "contig @ [last kmer]"] obtain c
    where "extend_contig (contig @ [last kmer]) rest = Inr c"
      and "length c = length (contig @ [last kmer]) + length rest"
    by blast
  with ne show ?case by simp
qed

text \<open>
  Claim C9. Along a simple path (no node twice) of \<open>n \<ge> 1\<close> nodes, each of length
  \<open>k - 1\<close> with \<open>k \<ge> 1\<close>, the reconstruction of \<open>get_contigs\<close> succeeds and the contig
  has length \<open>(k - 1) + (n - 1)\<close>.
\<close>

theorem contig_length:
  assumes "path \<noteq> []" and "distinct path" and "1 \<le> k"
    and "\<forall>nd \<in> set path. int (length nd) = k - 1"
  shows "\<exists>contig. path_contig path = Inr contig
           \<and> int (length contig) = (k - 1) + (int (length path) - 1)"
proof -
  from assms(1) obtain n0 rest where p: "path = n0 # rest"
    by (cases path) auto
  have ne: "\<forall>nd \<in> set rest. nd \<noteq> []"
  proof
    fix nd assume nd: "nd \<in> set rest"
    show "nd \<noteq> []"
    proof
      assume e: "nd = []"
      with nd assms(4) p have "k = 1" by auto
      with assms(4) p have "n0 = []" by auto
      with e nd p assms(2) show False by auto
    qed
  qed
  from extend_contig_length [OF ne, of n0] obtain c
    where c: "extend_contig n0 rest = Inr c" "length c = length n0 + length rest"
    by blast
  have "int (length n0) = k - 1"
    using assms(4) p by simp
  with c p show ?thesis
    by (simp add: path_contig_def)
qed

theorem contig_length_witness:
  "path_contig [''AB'', ''BC'', ''CD''] = Inr ''ABCD''
   \<and> (\<exists>contig. path_contig [''AB'', ''BC'', ''CD''] = Inr contig
         \<and> int (length contig) = (3 - 1) + (int (length [''AB'', ''BC'', ''CD'']) - 1))"
proof -
  have "\<exists>contig. path_contig [''AB'', ''BC'', ''CD''] = Inr contig
         \<and> int (length contig) = (3 - 1) + (int (length [''AB'', ''BC'', ''CD'']) - 1)"
    by (rule contig_length) simp_all
  moreover have "path_contig [''AB'', ''BC'', ''CD''] = Inr ''ABCD''"
    by (simp add: path_contig_def)
  ultimately show ?thesis by simp
qed

lemma get_contigs_paths_inv:
  "get_contigs_paths ps result = Inr res \<Longrightarrow>
   \<forall>x \<in> set result. snd x = int (length (fst x)) \<Longrightarrow>
   \<forall>x \<in> set res. snd x = int (length (fst x))"
  by (induction ps arbitrary: result) (auto split: sum.splits)

lemma get_contigs_ending_inv:
  "get_contigs_ending g st ens result = Inr res \<Longrightarrow>
   \<forall>x \<in> set result. snd x = int (length (fst x)) \<Longrightarrow>
   \<forall>x \<in> set res. snd x = int (length (fst x))"
proof (induction ens arbitrary: result)
  case Nil
  then show ?case by simp
next
  case (Cons en ens)
  then show ?case
    by (auto split: sum.splits if_splits dest: get_contigs_paths_inv)
qed

lemma get_contigs_starting_inv:
  "get_contigs_starting g sts ens result = Inr res \<Longrightarrow>
   \<forall>x \<in> set result. snd x = int (length (fst x)) \<Longrightarrow>
   \<forall>x \<in> set res. snd x = int (length (fst x))"
proof (induction sts arbitrary: result)
  case Nil
  then show ?case by simp
next
  case (Cons st sts)
  then show ?case
    by (auto split: sum.splits dest: get_contigs_ending_inv)
qed

lemma get_contigs_two_components:
  "get_contigs two_components [''AB'', ''XY''] [''BC'', ''YZ''] = Inr [(''ABC'', 3)]"
  by (simp add: get_contigs_def has_path_def all_simple_paths_def path_contig_def
      two_components_def successors_def numeral_3_eq_3)

text \<open>
  Claim C10. Whenever \<open>get_contigs\<close> returns, every element of the list it returns is a
  pair of a contig and the length of that contig.
\<close>

theorem get_contigs_lengths:
  "get_contigs graph starting_nodes ending_nodes = Inr result \<Longrightarrow>
   \<forall>x \<in> set result. snd x = int (length (fst x))"
  unfolding get_contigs_def by (erule get_contigs_starting_inv) simp

theorem get_contigs_lengths_witness:
  "get_contigs two_components [''AB'', ''XY''] [''BC'', ''YZ''] = Inr [(''ABC'', 3)]
   \<and> snd (''ABC'', 3::int) = int (length (fst (''ABC'', 3::int)))"
  using get_contigs_lengths [OF get_contigs_two_components] get_contigs_two_components
  by simp

text \<open>
  Claim C5, evaluated on the graph of the 3-mers \<open>ABC\<close> and \<open>XYZ\<close>, with its starting
  nodes and its sink nodes. The pair \<open>(XY, YZ)\<close> has a path, hence a contig \<open>XYZ\<close> to
  give; but the pair \<open>(XY, BC)\<close>, which has none, comes first and ends the loop over the
  sink nodes, so \<open>get_contigs\<close> returns the contig \<open>ABC\<close> alone.
\<close>

theorem get_contigs_break_drops_contig:
  "get_starting_nodes two_components = [''AB'', ''XY'']
   \<and> get_sink_nodes two_components = [''BC'', ''YZ'']
   \<and> has_path two_components ''XY'' ''BC'' = Inr False
   \<and> has_path two_components ''XY'' ''YZ'' = Inr True
   \<and> all_simple_paths two_components ''XY'' ''YZ'' = Inr [[''XY'', ''YZ'']]
   \<and> path_contig [''XY'', ''YZ''] = Inr ''XYZ''
   \<and> get_contigs two_components (get_starting_nodes two_components)
        (get_sink_nodes two_components) = Inr [(''ABC'', 3)]"
proof -
  have st: "get_starting_nodes two_components = [''AB'', ''XY'']"
    by (simp add: get_starting_nodes_def predecessors_def two_components_def)
  have en: "get_sink_nodes two_components = [''BC'', ''YZ'']"
    by (simp add: get_sink_nodes_def successors_def two_components_def)
  have no: "has_path two_components ''XY'' ''BC'' = Inr False"
    by (simp add: has_path_def two_components_def successors_def numeral_3_eq_3)
  have yes: "has_path two_components ''XY'' ''YZ'' = Inr True"
    by (simp add: has_path_def two_components_def successors_def numeral_3_eq_3)
  have ps: "all_simple_paths two_components ''XY'' ''YZ'' = Inr [[''XY'', ''YZ'']]"
    by (simp add: all_simple_paths_def two_components_def successors_def numeral_3_eq_3)
  have c: "path_contig [''XY'', ''YZ''] = Inr ''XYZ''"
    by (simp add: path_contig_def)
  show ?thesis
    using st en no yes ps c get_contigs_two_components by simp
qed

end
